theory Spec2Isabelle
  imports Main
begin

section \<open>Errors and JavaScript helpers\<close>

text \<open>
  Every \<^verbatim>\<open>throw new Error(msg)\<close> of the sources, and every rejection of a promise, is a
  value \<open>Error msg\<close>; a \<^verbatim>\<open>TypeError\<close> raised by the language itself (a call of a value
  that is not a function) is \<open>TypeError msg\<close>. A function that may throw, or an
  \<^verbatim>\<open>async\<close> function, returns \<open>error + 'a\<close>: \<open>Inl\<close> is the rejection, \<open>Inr\<close> the
  value the promise resolves to.
\<close>

datatype error = Error string | TypeError string

abbreviation quote :: string where
  "quote \<equiv> [CHR 0x27]"

text \<open>\<^verbatim>\<open>Array.prototype.join\<close> on an array of strings.\<close>

fun join :: "string \<Rightarrow> string list \<Rightarrow> string" where
  "join sep [] = []"
| "join sep [x] = x"
| "join sep (x # y # ys) = x @ sep @ join sep (y # ys)"

text \<open>
  JavaScript truthiness of a value that is a string or \<^verbatim>\<open>undefined\<close>/\<^verbatim>\<open>null\<close>:
  the empty string is falsy as well.
\<close>

definition truthy :: "string option \<Rightarrow> bool" where
  "truthy x = (case x of None \<Rightarrow> False | Some s \<Rightarrow> s \<noteq> [])"

text \<open>The operator \<^verbatim>\<open>a || b\<close> on such values.\<close>

definition js_or :: "string option \<Rightarrow> string option \<Rightarrow> string option" where
  "js_or a b = (if truthy a then a else b)"

section \<open>URL normalization (utils)\<close>

text \<open>
  \<^verbatim>\<open>normalizeUrl\<close> is written against the URI.js library (\<^verbatim>\<open>urijs\<close> and its
  \<^verbatim>\<open>URITemplate\<close>), which is not part of the repository. The operations it uses are the
  fields of this record: \<^verbatim>\<open>URI(href)\<close>, \<^verbatim>\<open>uri.absoluteTo(base)\<close>,
  \<^verbatim>\<open>url.is("relative")\<close>, \<^verbatim>\<open>url.toString()\<close> and
  \<^verbatim>\<open>URIT(s).expand(parameters)\<close>. \<open>'u\<close> is the library's URI object, \<open>'p\<close> the
  object of template parameters. The constructor, \<^verbatim>\<open>absoluteTo\<close> and \<^verbatim>\<open>expand\<close> may
  throw (the library rejects, for instance, \<^verbatim>\<open>absoluteTo\<close> on a URN and a template
  with an invalid literal): they return the error or the value. \<^verbatim>\<open>normalizeUrl\<close>
  catches nothing, so such an error is its result.
\<close>

record ('u, 'p) urijs =
  URI :: "string \<Rightarrow> error + 'u"
  absoluteTo :: "'u \<Rightarrow> string \<Rightarrow> error + 'u"
  is_relative :: "'u \<Rightarrow> bool"
  toString :: "'u \<Rightarrow> string"
  expand :: "string \<Rightarrow> 'p \<Rightarrow> error + 'u"

text \<open>
  \<^verbatim>\<open>base\<close> has type \<^verbatim>\<open>string | null\<close>; the test \<^verbatim>\<open>base ? ... : uri\<close> takes the
  second branch for \<^verbatim>\<open>null\<close> and for the empty string. \<^verbatim>\<open>parameters\<close> is an object or
  \<^verbatim>\<open>undefined\<close>, and every object is truthy.
\<close>

definition normalizeUrl ::
  "('u, 'p) urijs \<Rightarrow> string \<Rightarrow> string option \<Rightarrow> 'p option \<Rightarrow> error + string" where
  "normalizeUrl L href base parameters =
     (case URI L href of
        Inl e \<Rightarrow> Inl e
      | Inr uri \<Rightarrow>
          (case (case base of
                   None \<Rightarrow> Inr uri
                 | Some b \<Rightarrow> if b \<noteq> [] then absoluteTo L uri b else Inr uri) of
             Inl e \<Rightarrow> Inl e
           | Inr url \<Rightarrow>
               if is_relative L url
               then Inl (Error (''Normalized URL is relative: '' @ toString L url))
               else (case parameters of
                       Some p \<Rightarrow>
                         (case expand L (toString L url) p of
                            Inl e \<Rightarrow> Inl e
                          | Inr url' \<Rightarrow> Inr (toString L url'))
                     | None \<Rightarrow> Inr (toString L url))))"

text \<open>
  A small instance of the library, on which \<^verbatim>\<open>normalizeUrl\<close> can be run. A URI is its
  text; it is relative when it has no colon; \<^verbatim>\<open>absoluteTo\<close> throws on a
  \<^verbatim>\<open>mailto:\<close> URN, as URI.js does on every URN, keeps an absolute reference and
  appends a relative one to the base; \<^verbatim>\<open>expand\<close> throws on a template with the
  character \<^verbatim>\<open>|\<close>, one of those that \<^verbatim>\<open>URITemplate\<close> rejects in a literal, and
  otherwise appends the parameters, here a query string.
\<close>

definition sample_urijs :: "(string, string) urijs" where
  "sample_urijs =
     \<lparr>URI = (\<lambda>s. Inr s),
      absoluteTo = (\<lambda>u b.
        if take 7 u = ''mailto:''
        then Inl (Error ''URNs do not have any generally defined hierarchical components'')
        else if CHR '':'' \<in> set u then Inr u else Inr (b @ u)),
      is_relative = (\<lambda>u. CHR '':'' \<notin> set u),
      toString = (\<lambda>u. u),
      expand = (\<lambda>s p.
        if CHR ''|'' \<in> set s then Inl (Error (''Invalid Literal '' @ s)) else Inr (s @ p))\<rparr>"

section \<open>Data model\<close>

text \<open>
  The response of the HTTP transport (\<^verbatim>\<open>ResponseData\<close>): \<^verbatim>\<open>headers\<close> is an object,
  kept here as the list of its entries in key order (\<^verbatim>\<open>Object.keys\<close> is the list of the
  first components, a property read is \<open>map_of\<close>).
\<close>

record 'd ResponseData =
  data :: 'd
  headers :: "(string \<times> string) list"
  status :: int

text \<open>
  The request configuration (\<^verbatim>\<open>Config\<close>, the transport's request options). Only
  \<^verbatim>\<open>headers\<close> is read by the steps; it may be absent. All the other fields are the
  extension part of the record (\<open>Config.more\<close>), which a field update keeps.
\<close>

record Config =
  headers :: "(string \<rightharpoonup> string) option"

text \<open>The Siren document, as far as the steps read it (types of \<^verbatim>\<open>siren-types\<close>).\<close>

record Link =
  rel :: "string list"
  href :: string

record SubEntity =
  rel :: "string list"
  href :: "string option"
  links :: "Link list option"

record Siren =
  entities :: "SubEntity list option"
  links :: "Link list option"

text \<open>
  Modelled from the spec: the class \<^verbatim>\<open>NavState\<close> of \<^verbatim>\<open>./state\<close> is not among the
  sources. The spec gives it the current absolute URL, the request configuration and
  the optional last response bound to that URL; \<^verbatim>\<open>steps.ts\<close> reads \<^verbatim>\<open>state.cur\<close> and
  \<^verbatim>\<open>state.config\<close>, and builds states with
  \<^verbatim>\<open>new NavState(href, parameters, config, value)\<close>.
\<close>

record ('o, 'v) NavState =
  cur :: string
  config :: "'o Config_scheme"
  lastResponse :: "'v option"

text \<open>
  Modelled from the spec: the class \<^verbatim>\<open>Cache\<close> of \<^verbatim>\<open>./cache\<close> is not among the
  sources. The spec describes a lookup from an absolute URL to the response observed
  for it, or \<^verbatim>\<open>undefined\<close>; \<^verbatim>\<open>steps.ts\<close> only calls \<^verbatim>\<open>cache.getOr(url)\<close>.
\<close>

type_synonym 'v Cache = "string \<rightharpoonup> 'v"

definition getOr :: "'v Cache \<Rightarrow> string \<Rightarrow> 'v option" where
  "getOr cache url = cache url"

type_synonym ('o, 'v) Step = "('o, 'v) NavState \<Rightarrow> 'v Cache \<Rightarrow> error + ('o, 'v) NavState"

type_synonym ('o, 'v) MultiStep =
  "('o, 'v) NavState \<Rightarrow> 'v Cache \<Rightarrow> error + ('o, 'v) NavState list"

section \<open>Collaborators\<close>

text \<open>
  What \<^verbatim>\<open>steps.ts\<close> calls and the sources do not contain is a parameter of the model:
  \<^item> \<open>NavState_url href parameters\<close>: the URL that the constructor of \<^verbatim>\<open>NavState\<close>
    gives the new state, or the error it throws (the spec: constructing a state with a
    relative URL is an error);
  \<^item> \<open>rebase state href\<close>: \<^verbatim>\<open>state.rebase(href)\<close>, the reference resolved against the
    state, or the error it throws;
  \<^item> \<open>axios_get url config\<close>: \<^verbatim>\<open>axios.get\<close>, the transport used by \<^verbatim>\<open>getSiren\<close>;
  \<^item> \<open>getRequest state\<close>: \<^verbatim>\<open>getRequest\<close> of \<^verbatim>\<open>./requests\<close>;
  \<^item> \<open>isEmbeddedLink\<close>: the type guard of \<^verbatim>\<open>siren-types\<close>;
  \<^item> \<open>JSON_stringify\<close>: \<^verbatim>\<open>JSON.stringify(possible, null, 4)\<close>.
  The transport is taken to answer the same request in the same way during one run.
\<close>

record ('p, 'o, 'v, 'd) deps =
  NavState_url :: "string \<Rightarrow> 'p option \<Rightarrow> error + string"
  rebase :: "('o, 'v) NavState \<Rightarrow> string \<Rightarrow> error + string"
  axios_get :: "string \<Rightarrow> 'o Config_scheme \<Rightarrow> error + Siren ResponseData"
  getRequest :: "('o, 'v) NavState \<Rightarrow> error + 'd ResponseData"
  isEmbeddedLink :: "SubEntity \<Rightarrow> bool"
  JSON_stringify :: "('o, 'v) NavState list \<Rightarrow> string"

text \<open>\<^verbatim>\<open>new NavState(href, parameters, config, value)\<close>.\<close>

definition new_NavState ::
  "('p, 'o, 'v, 'd) deps \<Rightarrow> string \<Rightarrow> 'p option \<Rightarrow> 'o Config_scheme \<Rightarrow> 'v option \<Rightarrow>
     error + ('o, 'v) NavState" where
  "new_NavState D ref parameters cfg val =
     (case NavState_url D ref parameters of
        Inl e \<Rightarrow> Inl e
      | Inr url \<Rightarrow> Inr \<lparr>cur = url, config = cfg, lastResponse = val\<rparr>)"

text \<open>
  Modelled from the spec: \<^verbatim>\<open>getSelf\<close> is imported from \<^verbatim>\<open>./utils\<close> and is not among
  the sources. The spec: look up the entity's own self-relation link; if present, its
  URL. Here: the \<^verbatim>\<open>href\<close> of the first link whose relations contain \<^verbatim>\<open>self\<close>.
\<close>

definition getSelf :: "SubEntity \<Rightarrow> string option" where
  "getSelf entity =
     (case List.find (\<lambda>l. ''self'' \<in> set (Link.rel l))
             (case SubEntity.links entity of None \<Rightarrow> [] | Some ls \<Rightarrow> ls) of
        None \<Rightarrow> None
      | Some l \<Rightarrow> Some (Link.href l))"

text \<open>\<^verbatim>\<open>getSiren\<close> (utils): the body of the response, read as a Siren document.\<close>

definition getSiren :: "('p, 'o, 'v, 'd) deps \<Rightarrow> ('o, 'v) NavState \<Rightarrow> error + Siren" where
  "getSiren D state =
     (case axios_get D (cur state) (config state) of
        Inl e \<Rightarrow> Inl e
      | Inr resp \<Rightarrow> Inr (data resp))"

section \<open>The reducers (steps)\<close>

definition applyStep ::
  "('o, 'v) Step \<Rightarrow> ('o, 'v) NavState \<Rightarrow> 'v Cache \<Rightarrow> error + ('o, 'v) NavState" where
  "applyStep step state cache = step state cache"

text \<open>
  \<^verbatim>\<open>reduce\<close>: \<open>cur'\<close> is the promise \<^verbatim>\<open>cur\<close> of the running state. With no step left it is
  returned as it is; otherwise it is awaited (a rejection is rethrown) and the first
  step is applied to its value.
\<close>

fun reduce ::
  "error + ('o, 'v) NavState \<Rightarrow> ('o, 'v) Step list \<Rightarrow> 'v Cache \<Rightarrow> error + ('o, 'v) NavState" where
  "reduce cur' [] cache = cur'"
| "reduce cur' (step # steps) cache =
     (case cur' of
        Inl e \<Rightarrow> Inl e
      | Inr state \<Rightarrow> reduce (applyStep step state cache) steps cache)"

text \<open>
  \<^verbatim>\<open>applySteps\<close>: the loop over \<^verbatim>\<open>states\<close>, with \<^verbatim>\<open>ret\<close> the list built so far. The
  first rejected application ends the loop and is the result.
\<close>

fun applySteps_loop ::
  "('o, 'v) MultiStep \<Rightarrow> ('o, 'v) NavState list \<Rightarrow> 'v Cache \<Rightarrow> ('o, 'v) NavState list \<Rightarrow>
     error + ('o, 'v) NavState list" where
  "applySteps_loop step [] cache ret = Inr ret"
| "applySteps_loop step (state # states) cache ret =
     (case step state cache of
        Inl e \<Rightarrow> Inl e
      | Inr results \<Rightarrow> applySteps_loop step states cache (ret @ results))"

definition applySteps ::
  "('o, 'v) MultiStep \<Rightarrow> ('o, 'v) NavState list \<Rightarrow> 'v Cache \<Rightarrow> error + ('o, 'v) NavState list" where
  "applySteps step states cache = applySteps_loop step states cache []"

fun reduceEach ::
  "error + ('o, 'v) NavState list \<Rightarrow> ('o, 'v) MultiStep list \<Rightarrow> 'v Cache \<Rightarrow>
     error + ('o, 'v) NavState list" where
  "reduceEach cur' [] cache = cur'"
| "reduceEach cur' (step # steps) cache =
     (case cur' of
        Inl e \<Rightarrow> Inl e
      | Inr states \<Rightarrow> reduceEach (applySteps step states cache) steps cache)"

section \<open>Header steps (steps)\<close>

text \<open>
  A variable of the source that has the name of a field (\<^verbatim>\<open>rel\<close>, \<^verbatim>\<open>href\<close>,
  \<^verbatim>\<open>cur\<close>) is written with a prime.

  A headers object is the map of its own properties. \<open>spread h\<close> is the set of
  entries that \<^verbatim>\<open>{ ...h }\<close> copies: none when \<^verbatim>\<open>h\<close> is \<^verbatim>\<open>undefined\<close>.
\<close>

definition spread :: "(string \<rightharpoonup> string) option \<Rightarrow> (string \<rightharpoonup> string)" where
  "spread h = (case h of None \<Rightarrow> Map.empty | Some m \<Rightarrow> m)"

text \<open>
  The assignment \<^verbatim>\<open>h[key] = value\<close> of a string to an object \<^verbatim>\<open>h\<close> made by an object
  literal. An own property is written, a missing one is created; but for the key
  \<^verbatim>\<open>__proto__\<close>, when \<^verbatim>\<open>h\<close> has no own property of that name, the assignment reaches
  the accessor of \<^verbatim>\<open>Object.prototype\<close>, which ignores a string: nothing is bound.
\<close>

definition assign :: "(string \<rightharpoonup> string) \<Rightarrow> string \<Rightarrow> string \<Rightarrow> (string \<rightharpoonup> string)" where
  "assign h key val = (if key = ''__proto__'' \<and> h key = None then h else h(key \<mapsto> val))"

text \<open>
  In \<^verbatim>\<open>accept\<close>, \<^verbatim>\<open>newconfig.headers.hasOwnProperty("Accept")\<close> looks the method up on
  the headers object: when the object has an own entry named \<^verbatim>\<open>hasOwnProperty\<close> (a
  string), the call throws a \<^verbatim>\<open>TypeError\<close>; otherwise it is the method of
  \<^verbatim>\<open>Object.prototype\<close> and tells whether \<^verbatim>\<open>Accept\<close> is an own entry.
\<close>

definition accept :: "('p, 'o, 'v, 'd) deps \<Rightarrow> string \<Rightarrow> ('o, 'v) Step" where
  "accept D ctype state cache =
     (let newconfig = config state;
          newconfig = (case Config.headers newconfig of
                         None \<Rightarrow> newconfig\<lparr>Config.headers := Some Map.empty\<rparr>
                       | Some _ \<Rightarrow> newconfig)
      in case spread (Config.headers newconfig) ''hasOwnProperty'' of
           Some _ \<Rightarrow> Inl (TypeError ''newconfig.headers.hasOwnProperty is not a function'')
         | None \<Rightarrow>
             (let newconfig =
                    (case spread (Config.headers newconfig) ''Accept'' of
                       Some cur' \<Rightarrow>
                         newconfig\<lparr>Config.headers :=
                           Some ((spread (Config.headers (config state)))
                                   (''Accept'' \<mapsto> ctype @ '', '' @ cur'))\<rparr>
                     | None \<Rightarrow>
                         newconfig\<lparr>Config.headers :=
                           Some ((spread (Config.headers (config state)))
                                   (''Accept'' \<mapsto> ctype))\<rparr>)
              in new_NavState D (cur state) None newconfig (getOr cache (cur state))))"

text \<open>
  In \<^verbatim>\<open>header\<close>, \<open>newheaders\<close> is the object that
  \<^verbatim>\<open>newconfig.headers = { ...state.config.headers }\<close> creates and that
  \<^verbatim>\<open>newconfig.headers[key] = value\<close> then writes.
\<close>

definition header :: "('p, 'o, 'v, 'd) deps \<Rightarrow> string \<Rightarrow> string \<Rightarrow> ('o, 'v) Step" where
  "header D key val state cache =
     (let newconfig = config state;
          newconfig = (case Config.headers newconfig of
                         None \<Rightarrow> newconfig\<lparr>Config.headers := Some Map.empty\<rparr>
                       | Some _ \<Rightarrow> newconfig);
          newheaders = spread (Config.headers (config state));
          newheaders = assign newheaders key val;
          newconfig = newconfig\<lparr>Config.headers := Some newheaders\<rparr>
      in new_NavState D (cur state) None newconfig (getOr cache (cur state)))"

definition contentType :: "('p, 'o, 'v, 'd) deps \<Rightarrow> string \<Rightarrow> ('o, 'v) Step" where
  "contentType D ctype = header D ''Content-Type'' ctype"

definition auth :: "('p, 'o, 'v, 'd) deps \<Rightarrow> string \<Rightarrow> string \<Rightarrow> ('o, 'v) Step" where
  "auth D scheme token = header D ''Authorization'' (scheme @ '' '' @ token)"

section \<open>The objects behind header\<close>

text \<open>
  In \<^verbatim>\<open>header\<close> the configuration and its \<^verbatim>\<open>headers\<close> are objects, shared by
  reference between states. To state that the input state's objects are not written,
  the statements that build the new configuration are modelled a second time on an
  explicit store of objects.
\<close>

type_synonym addr = nat

text \<open>
  An object of the store is a configuration object (its \<^verbatim>\<open>headers\<close> property, a
  reference or \<^verbatim>\<open>undefined\<close>, and its other properties) or a headers object (its
  entries).
\<close>

datatype 'o obj = ConfigObj "addr option" 'o | HeadersObj "string \<rightharpoonup> string"

record 'o store =
  heap :: "addr \<rightharpoonup> 'o obj"
  top :: addr

text \<open>A new object gets the next free address.\<close>

definition alloc :: "'o obj \<Rightarrow> 'o store \<Rightarrow> addr \<times> 'o store" where
  "alloc ob st = (top st, st\<lparr>heap := (heap st)(top st \<mapsto> ob), top := Suc (top st)\<rparr>)"

text \<open>
  Reading and writing the property \<^verbatim>\<open>headers\<close> of the configuration object at \<open>a\<close>;
  the entries copied by \<^verbatim>\<open>{ ...h }\<close>; the assignment \<^verbatim>\<open>h[key] = value\<close>.
\<close>

definition headers_ref :: "'o store \<Rightarrow> addr \<Rightarrow> addr option" where
  "headers_ref st a = (case heap st a of Some (ConfigObj h _) \<Rightarrow> h | _ \<Rightarrow> None)"

definition set_headers_ref :: "addr \<Rightarrow> addr \<Rightarrow> 'o store \<Rightarrow> 'o store" where
  "set_headers_ref a h st =
     (case heap st a of
        Some (ConfigObj _ others) \<Rightarrow> st\<lparr>heap := (heap st)(a \<mapsto> ConfigObj (Some h) others)\<rparr>
      | _ \<Rightarrow> st)"

definition entries :: "'o store \<Rightarrow> addr option \<Rightarrow> (string \<rightharpoonup> string)" where
  "entries st h =
     (case h of
        None \<Rightarrow> Map.empty
      | Some a \<Rightarrow> (case heap st a of Some (HeadersObj m) \<Rightarrow> m | _ \<Rightarrow> Map.empty))"

definition put_entry :: "addr option \<Rightarrow> string \<Rightarrow> string \<Rightarrow> 'o store \<Rightarrow> 'o store" where
  "put_entry h key val st =
     (case h of
        None \<Rightarrow> st
      | Some a \<Rightarrow>
          (case heap st a of
             Some (HeadersObj m) \<Rightarrow> st\<lparr>heap := (heap st)(a \<mapsto> HeadersObj (assign m key val))\<rparr>
           | _ \<Rightarrow> st))"

text \<open>
  The four statements of \<^verbatim>\<open>header\<close> that build \<^verbatim>\<open>newconfig\<close> from
  \<^verbatim>\<open>state.config\<close>: the shallow copy \<^verbatim>\<open>{ ...state.config }\<close>, the default
  \<^verbatim>\<open>if (!newconfig.headers) newconfig.headers = {}\<close>, the copy
  \<^verbatim>\<open>newconfig.headers = { ...state.config.headers }\<close> and the assignment
  \<^verbatim>\<open>newconfig.headers[key] = value\<close>. The result is the reference \<^verbatim>\<open>newconfig\<close>
  and the store after them; there is none when \<open>state_config\<close> is not the address of
  a configuration object.
\<close>

definition header_newconfig ::
  "string \<Rightarrow> string \<Rightarrow> addr \<Rightarrow> 'o store \<Rightarrow> (addr \<times> 'o store) option" where
  "header_newconfig key val state_config st =
     (case heap st state_config of
        Some (ConfigObj h others) \<Rightarrow>
          (let (newconfig, st) = alloc (ConfigObj h others) st;
               st = (case headers_ref st newconfig of
                       None \<Rightarrow> (let (blank, st) = alloc (HeadersObj Map.empty) st
                                in set_headers_ref newconfig blank st)
                     | Some _ \<Rightarrow> st);
               (copied, st) = alloc (HeadersObj (entries st (headers_ref st state_config))) st;
               st = set_headers_ref newconfig copied st;
               st = put_entry (headers_ref st newconfig) key val st
           in Some (newconfig, st))
      | _ \<Rightarrow> None)"

text \<open>
  The configuration that the object at \<open>a\<close> stands for: its header entries read through
  the reference, and its other properties.
\<close>

definition read_config :: "'o store \<Rightarrow> addr \<Rightarrow> 'o Config_scheme option" where
  "read_config st a =
     (case heap st a of
        Some (ConfigObj None others) \<Rightarrow> Some \<lparr>headers = None, \<dots> = others\<rparr>
      | Some (ConfigObj (Some h) others) \<Rightarrow>
          (case heap st h of
             Some (HeadersObj m) \<Rightarrow> Some \<lparr>headers = Some m, \<dots> = others\<rparr>
           | _ \<Rightarrow> None)
      | _ \<Rightarrow> None)"

text \<open>The addresses from \<open>top\<close> on are free.\<close>

definition wf_store :: "'o store \<Rightarrow> bool" where
  "wf_store st = (\<forall>a. top st \<le> a \<longrightarrow> heap st a = None)"

section \<open>Following links (steps)\<close>

text \<open>
  \<^verbatim>\<open>Array.prototype.forEach\<close> with a callback that changes a local variable of the
  caller (here the array \<^verbatim>\<open>possible\<close>) and may throw: the callback takes the element
  and the variable and returns the new variable or the error, which ends the loop.
\<close>

fun forEach :: "('a \<Rightarrow> 's \<Rightarrow> error + 's) \<Rightarrow> 'a list \<Rightarrow> 's \<Rightarrow> error + 's" where
  "forEach f [] s = Inr s"
| "forEach f (x # xs) s = (case f x s of Inl e \<Rightarrow> Inl e | Inr s' \<Rightarrow> forEach f xs s')"

text \<open>
  The callback of the first loop of \<^verbatim>\<open>findPossible\<close>, over the sub-entities.
  \<^verbatim>\<open>entity.rel.indexOf(rel) == -1\<close> is \<open>rel' \<notin> set (rel entity)\<close>;
  \<^verbatim>\<open>entity.hasOwnProperty("href")\<close> is \<open>href entity \<noteq> None\<close>; \<^verbatim>\<open>if (self)\<close>
  holds for a string that is not empty.
\<close>

definition findPossible_entity ::
  "('p, 'o, 'v, 'd) deps \<Rightarrow> string \<Rightarrow> ('o, 'v) NavState \<Rightarrow> 'v Cache \<Rightarrow> 'p option \<Rightarrow>
     SubEntity \<Rightarrow> ('o, 'v) NavState list \<Rightarrow> error + ('o, 'v) NavState list" where
  "findPossible_entity D rel' state cache parameters entity possible =
     (if rel' \<notin> set (SubEntity.rel entity) then Inr possible
      else (case SubEntity.href entity of
              Some href' \<Rightarrow>
                (case rebase D state href' of
                   Inl e \<Rightarrow> Inl e
                 | Inr hrefAbs \<Rightarrow>
                     (case new_NavState D hrefAbs parameters (config state) (getOr cache hrefAbs) of
                        Inl e \<Rightarrow> Inl e
                      | Inr ns \<Rightarrow> Inr (possible @ [ns])))
            | None \<Rightarrow>
                if \<not> isEmbeddedLink D entity then
                  (case getSelf entity of
                     None \<Rightarrow> Inr possible
                   | Some self \<Rightarrow>
                       if self \<noteq> [] then
                         (case rebase D state self of
                            Inl e \<Rightarrow> Inl e
                          | Inr selfAbs \<Rightarrow>
                              (case new_NavState D selfAbs parameters (config state)
                                      (getOr cache selfAbs) of
                                 Inl e \<Rightarrow> Inl e
                               | Inr ns \<Rightarrow> Inr (possible @ [ns])))
                       else Inr possible)
                else Inr possible))"

text \<open>The callback of the second loop, over the top-level links.\<close>

definition findPossible_link ::
  "('p, 'o, 'v, 'd) deps \<Rightarrow> string \<Rightarrow> ('o, 'v) NavState \<Rightarrow> 'v Cache \<Rightarrow> 'p option \<Rightarrow>
     Link \<Rightarrow> ('o, 'v) NavState list \<Rightarrow> error + ('o, 'v) NavState list" where
  "findPossible_link D rel' state cache parameters link possible =
     (if rel' \<notin> set (Link.rel link) then Inr possible
      else (case rebase D state (Link.href link) of
              Inl e \<Rightarrow> Inl e
            | Inr hrefAbs \<Rightarrow>
                (case new_NavState D hrefAbs parameters (config state) (getOr cache hrefAbs) of
                   Inl e \<Rightarrow> Inl e
                 | Inr ns \<Rightarrow> Inr (possible @ [ns]))))"

definition findPossible ::
  "('p, 'o, 'v, 'd) deps \<Rightarrow> string \<Rightarrow> Siren \<Rightarrow> ('o, 'v) NavState \<Rightarrow> 'v Cache \<Rightarrow> 'p option \<Rightarrow>
     error + ('o, 'v) NavState list" where
  "findPossible D rel' siren state cache parameters =
     (case forEach (findPossible_entity D rel' state cache parameters)
             (case Siren.entities siren of None \<Rightarrow> [] | Some es \<Rightarrow> es) [] of
        Inl e \<Rightarrow> Inl e
      | Inr possible \<Rightarrow>
          (let links' = (case Siren.links siren of None \<Rightarrow> [] | Some ls \<Rightarrow> ls)
           in forEach (findPossible_link D rel' state cache parameters) links' possible))"

definition followEach ::
  "('p, 'o, 'v, 'd) deps \<Rightarrow> string \<Rightarrow> 'p option \<Rightarrow> ('o, 'v) MultiStep" where
  "followEach D rel' parameters state cache =
     (case getSiren D state of
        Inl e \<Rightarrow> Inl e
      | Inr siren \<Rightarrow> findPossible D rel' siren state cache parameters)"

text \<open>
  \<^verbatim>\<open>followLocation\<close>. \<^verbatim>\<open>resp.headers["Location"] || resp.headers["location"]\<close> is
  \<open>js_or\<close> of the two reads, and \<^verbatim>\<open>!location\<close> holds for \<^verbatim>\<open>undefined\<close> and for the
  empty string; \<open>missing\<close> is the error thrown then.
\<close>

definition followLocation :: "('p, 'o, 'v, 'd) deps \<Rightarrow> ('o, 'v) Step" where
  "followLocation D state cache =
     (case getRequest D state of
        Inl e \<Rightarrow> Inl e
      | Inr resp \<Rightarrow>
          (let location = js_or (map_of (ResponseData.headers resp) ''Location'')
                                (map_of (ResponseData.headers resp) ''location'');
               missing = Inl (Error (''No 'Location' header found in '' @ quote @
                                     join '', '' (map fst (ResponseData.headers resp)) @ quote))
           in case location of
                None \<Rightarrow> missing
              | Some loc \<Rightarrow>
                  if loc = [] then missing
                  else (case rebase D state loc of
                          Inl e \<Rightarrow> Inl e
                        | Inr locurl \<Rightarrow>
                            new_NavState D locurl None (config state) (getOr cache locurl))))"

text \<open>
  \<^verbatim>\<open>follow\<close>. The optional \<^verbatim>\<open>which\<close> is a function of the caller, which may throw.
\<close>

definition follow ::
  "('p, 'o, 'v, 'd) deps \<Rightarrow> string \<Rightarrow> 'p option \<Rightarrow>
     (('o, 'v) NavState list \<Rightarrow> error + ('o, 'v) NavState) option \<Rightarrow> ('o, 'v) Step" where
  "follow D rel' parameters which state cache =
     (case getSiren D state of
        Inl e \<Rightarrow> Inl e
      | Inr siren \<Rightarrow>
          (case findPossible D rel' siren state cache parameters of
             Inl e \<Rightarrow> Inl e
           | Inr possible \<Rightarrow>
               if length possible = 0 then
                 Inl (Error (''Cannot follow relation '' @ quote @ rel' @ quote @
                             '', no links with that relation''))
               else if length possible > 1 then
                 (case which of
                    None \<Rightarrow>
                      Inl (Error (''Multiple links with relation '' @ quote @ rel' @ quote @
                                  '' found when only one was expected in '' @
                                  JSON_stringify D possible))
                  | Some w \<Rightarrow> w possible)
               else Inr (possible ! 0)))"

definition toMulti :: "('o, 'v) Step \<Rightarrow> ('o, 'v) MultiStep" where
  "toMulti step cur' cache =
     (case step cur' cache of
        Inl e \<Rightarrow> Inl e
      | Inr ns \<Rightarrow> Inr [ns])"

section \<open>The targets of a relation\<close>

text \<open>
  Three notions used to state what \<^verbatim>\<open>findPossible\<close> computes; they are not functions
  of the sources. \<open>candidate\<close> is what each of its three branches does with a reference:
  rebase it, then build the state. \<open>subentity_target\<close> is the reference a sub-entity
  contributes, if any, and \<open>targets\<close> lists the references of a document for a
  relation: those of the sub-entities in document order, then those of the top-level
  links in document order.
\<close>

definition candidate ::
  "('p, 'o, 'v, 'd) deps \<Rightarrow> ('o, 'v) NavState \<Rightarrow> 'v Cache \<Rightarrow> 'p option \<Rightarrow> string \<Rightarrow>
     error + ('o, 'v) NavState" where
  "candidate D state cache parameters ref =
     (case rebase D state ref of
        Inl e \<Rightarrow> Inl e
      | Inr refAbs \<Rightarrow> new_NavState D refAbs parameters (config state) (getOr cache refAbs))"

definition push_candidate ::
  "('p, 'o, 'v, 'd) deps \<Rightarrow> ('o, 'v) NavState \<Rightarrow> 'v Cache \<Rightarrow> 'p option \<Rightarrow> string \<Rightarrow>
     ('o, 'v) NavState list \<Rightarrow> error + ('o, 'v) NavState list" where
  "push_candidate D state cache parameters ref possible =
     (case candidate D state cache parameters ref of
        Inl e \<Rightarrow> Inl e
      | Inr ns \<Rightarrow> Inr (possible @ [ns]))"

definition subentity_target :: "('p, 'o, 'v, 'd) deps \<Rightarrow> string \<Rightarrow> SubEntity \<Rightarrow> string option" where
  "subentity_target D rel' entity =
     (if rel' \<notin> set (SubEntity.rel entity) then None
      else (case SubEntity.href entity of
              Some href' \<Rightarrow> Some href'
            | None \<Rightarrow>
                if \<not> isEmbeddedLink D entity \<and> truthy (getSelf entity) then getSelf entity
                else None))"

definition targets :: "('p, 'o, 'v, 'd) deps \<Rightarrow> string \<Rightarrow> Siren \<Rightarrow> string list" where
  "targets D rel' siren =
     List.map_filter (subentity_target D rel')
       (case Siren.entities siren of None \<Rightarrow> [] | Some es \<Rightarrow> es) @
     map Link.href
       (filter (\<lambda>link. rel' \<in> set (Link.rel link))
          (case Siren.links siren of None \<Rightarrow> [] | Some ls \<Rightarrow> ls))"

section \<open>Header steps (steps/build)\<close>

text \<open>
  Modelled from the spec: \<^verbatim>\<open>headerConfig\<close> is imported from \<^verbatim>\<open>../config\<close> and is not
  among the sources. \<^verbatim>\<open>header\<close> of \<^verbatim>\<open>steps/build.ts\<close> builds the configuration of the
  new state with it, and the spec says of \<^verbatim>\<open>header(key, value)\<close>: the new state's
  configuration has \<^verbatim>\<open>key\<close> set to \<^verbatim>\<open>value\<close> in its header mapping, and all other
  configuration fields are preserved.
\<close>

definition headerConfig :: "string \<Rightarrow> string \<Rightarrow> 'o Config_scheme \<Rightarrow> 'o Config_scheme" where
  "headerConfig key val cfg =
     cfg\<lparr>Config.headers := Some ((spread (Config.headers cfg))(key \<mapsto> val))\<rparr>"

text \<open>
  The second definition of \<^verbatim>\<open>header\<close> and \<^verbatim>\<open>accept\<close>, in \<^verbatim>\<open>steps/build.ts\<close>. These
  steps take the state only, read its configuration as \<^verbatim>\<open>state.currentConfig\<close> and
  pass no fourth argument to the constructor.
\<close>

definition build_header ::
  "('p, 'o, 'v, 'd) deps \<Rightarrow> string \<Rightarrow> string \<Rightarrow> ('o, 'v) NavState \<Rightarrow> error + ('o, 'v) NavState" where
  "build_header D key val state =
     new_NavState D (cur state) None (headerConfig key val (config state)) None"

definition build_accept ::
  "('p, 'o, 'v, 'd) deps \<Rightarrow> string \<Rightarrow> ('o, 'v) NavState \<Rightarrow> error + ('o, 'v) NavState" where
  "build_accept D ctype = build_header D ''Accept'' ctype"

section \<open>Sample collaborators\<close>

text \<open>
  A small instance of the collaborators, on which the functions above can be run:
  a reference is absolute when it starts with \<^verbatim>\<open>http\<close>, a relative one is appended
  to the current URL, the only document is served at \<^verbatim>\<open>http://api/\<close>, and the only
  other resource, \<^verbatim>\<open>http://api/new\<close>, answers with a \<^verbatim>\<open>location\<close> header.
\<close>

definition sample_doc :: Siren where
  "sample_doc =
     \<lparr>entities = Some
        [\<lparr>SubEntity.rel = [''item''], href = None,
          links = Some [\<lparr>Link.rel = [''self''], href = ''http://api/items/1''\<rparr>]\<rparr>,
         \<lparr>SubEntity.rel = [''item''], href = Some ''items/2'', links = None\<rparr>,
         \<lparr>SubEntity.rel = [''item''], href = None, links = Some []\<rparr>],
      links = Some
        [\<lparr>Link.rel = [''self''], href = ''http://api/''\<rparr>,
         \<lparr>Link.rel = [''next'', ''item''], href = ''http://api/?page=2''\<rparr>]\<rparr>"

definition sample_deps :: "(unit, unit, string, unit) deps" where
  "sample_deps =
     \<lparr>NavState_url = (\<lambda>ref parameters.
        if take 4 ref = ''http'' then Inr ref
        else Inl (Error (''Normalized URL is relative: '' @ ref))),
      rebase = (\<lambda>state ref. if take 4 ref = ''http'' then Inr ref else Inr (cur state @ ref)),
      axios_get = (\<lambda>url cfg.
        if url = ''http://api/'' then Inr \<lparr>data = sample_doc, headers = [], status = 200\<rparr>
        else Inl (Error ''Request failed with status code 404'')),
      getRequest = (\<lambda>state.
        if cur state = ''http://api/new''
        then Inr \<lparr>data = (), headers = [(''content-length'', ''0''), (''location'', ''items/3'')],
                  status = 201\<rparr>
        else Inr \<lparr>data = (), headers = [(''content-length'', ''0''), (''etag'', ''x'')],
                  status = 200\<rparr>),
      isEmbeddedLink = (\<lambda>entity. SubEntity.href entity \<noteq> None),
      JSON_stringify = (\<lambda>states. join '', '' (map cur states))\<rparr>"

definition sample_state :: "(unit, string) NavState" where
  "sample_state = \<lparr>cur = ''http://api/'', config = \<lparr>headers = None\<rparr>, lastResponse = None\<rparr>"

section \<open>Auxiliary facts\<close>

lemma reduce_Inl: "reduce (Inl e) steps cache = Inl e"
  by (cases steps) simp_all

lemma reduce_append:
  "reduce cur' (xs @ ys) cache = reduce (reduce cur' xs cache) ys cache"
proof (induction xs arbitrary: cur')
  case Nil
  show ?case by simp
next
  case (Cons x xs)
  show ?case
  proof (cases cur')
    case (Inl e)
    then show ?thesis by (simp add: reduce_Inl)
  next
    case (Inr s)
    then show ?thesis by (simp add: Cons.IH)
  qed
qed

lemma applySteps_loop_ok:
  "\<forall>s\<in>set states. step s cache = Inr (succ s) \<Longrightarrow>
   applySteps_loop step states cache ret = Inr (ret @ concat (map succ states))"
  by (induction states arbitrary: ret) simp_all

lemma forEach_append:
  "forEach f (xs @ ys) s = (case forEach f xs s of Inl e \<Rightarrow> Inl e | Inr s' \<Rightarrow> forEach f ys s')"
  by (induction xs arbitrary: s) (simp_all split: sum.splits)

lemma findPossible_entity_target:
  "findPossible_entity D rel' state cache parameters entity possible =
     (case subentity_target D rel' entity of
        None \<Rightarrow> Inr possible
      | Some ref \<Rightarrow> push_candidate D state cache parameters ref possible)"
  by (simp add: findPossible_entity_def subentity_target_def push_candidate_def candidate_def
        truthy_def split: option.splits sum.splits)

lemma findPossible_link_target:
  "findPossible_link D rel' state cache parameters link possible =
     (if rel' \<in> set (Link.rel link)
      then push_candidate D state cache parameters (Link.href link) possible
      else Inr possible)"
  by (simp add: findPossible_link_def push_candidate_def candidate_def split: sum.splits)

lemma forEach_entities:
  "forEach (findPossible_entity D rel' state cache parameters) es possible =
   forEach (push_candidate D state cache parameters)
     (List.map_filter (subentity_target D rel') es) possible"
  by (induction es arbitrary: possible)
     (simp_all add: findPossible_entity_target List.map_filter_simps
        split: option.splits sum.splits)

lemma forEach_links:
  "forEach (findPossible_link D rel' state cache parameters) ls possible =
   forEach (push_candidate D state cache parameters)
     (map Link.href (filter (\<lambda>link. rel' \<in> set (Link.rel link)) ls)) possible"
  by (induction ls arbitrary: possible)
     (simp_all add: findPossible_link_target split: sum.splits)

lemma findPossible_push:
  "findPossible D rel' siren state cache parameters =
   forEach (push_candidate D state cache parameters) (targets D rel' siren) []"
  by (simp add: findPossible_def targets_def forEach_append forEach_entities forEach_links Let_def
        split: sum.splits)

lemma forEach_push_Cons:
  "forEach (push_candidate D state cache parameters) (r # refs) acc =
     (case candidate D state cache parameters r of
        Inl e \<Rightarrow> Inl e
      | Inr ns \<Rightarrow> forEach (push_candidate D state cache parameters) refs (acc @ [ns]))"
  by (simp add: push_candidate_def split: sum.splits)

lemma forEach_push_iff:
  "forEach (push_candidate D state cache parameters) refs acc = Inr out \<longleftrightarrow>
   (\<exists>new. out = acc @ new \<and>
          list_all2 (\<lambda>ref ns. candidate D state cache parameters ref = Inr ns) refs new)"
proof (induction refs arbitrary: acc)
  case Nil
  show ?case by auto
next
  case (Cons r refs)
  show ?case
  proof (cases "candidate D state cache parameters r")
    case (Inl e)
    then show ?thesis by (simp add: forEach_push_Cons list_all2_Cons1 del: forEach.simps(2))
  next
    case (Inr ns)
    then show ?thesis
      by (auto simp: forEach_push_Cons Cons.IH list_all2_Cons1 simp del: forEach.simps(2))
  qed
qed

lemma map_filter_append:
  "List.map_filter f (xs @ ys) = List.map_filter f xs @ List.map_filter f ys"
  by (simp add: List.map_filter_def)

lemma getSelf_None:
  "\<forall>l\<in>set (case SubEntity.links e of None \<Rightarrow> [] | Some ls \<Rightarrow> ls). ''self'' \<notin> set (Link.rel l) \<Longrightarrow>
   getSelf e = None"
  by (auto simp: getSelf_def find_None_iff split: option.splits)

lemma wf_store_lt: "wf_store st \<Longrightarrow> heap st a = Some ob \<Longrightarrow> a < top st"
  by (metis wf_store_def not_le option.distinct(1))

lemma header_newconfig_undefined:
  assumes "heap st c = Some (ConfigObj None others)" and "c < top st"
  shows "header_newconfig key val c st =
           Some (top st,
                 st\<lparr>heap := (heap st)
                        (top st \<mapsto> ConfigObj (Some (Suc (Suc (top st)))) others,
                         Suc (top st) \<mapsto> HeadersObj Map.empty,
                         Suc (Suc (top st)) \<mapsto> HeadersObj (assign Map.empty key val)),
                    top := Suc (Suc (Suc (top st)))\<rparr>)"
  using assms
  by (simp add: header_newconfig_def alloc_def headers_ref_def set_headers_ref_def
      entries_def put_entry_def Let_def fun_upd_twist)

lemma header_newconfig_defined:
  assumes "heap st c = Some (ConfigObj (Some a) others)" and "c < top st"
    and "heap st a = Some (HeadersObj m)" and "a < top st"
  shows "header_newconfig key val c st =
           Some (top st,
                 st\<lparr>heap := (heap st)
                        (top st \<mapsto> ConfigObj (Some (Suc (top st))) others,
                         Suc (top st) \<mapsto> HeadersObj (assign m key val)),
                    top := Suc (Suc (top st))\<rparr>)"
  using assms
  by (simp add: header_newconfig_def alloc_def headers_ref_def set_headers_ref_def
      entries_def put_entry_def Let_def fun_upd_twist)

lemma header_newconfig_reads:
  assumes "wf_store st" and "read_config st c = Some cfg"
  shows "\<exists>c' st'. header_newconfig key val c st = Some (c', st') \<and>
           read_config st' c' =
             Some (cfg\<lparr>Config.headers := Some (assign (spread (Config.headers cfg)) key val)\<rparr>) \<and>
           read_config st' c = Some cfg \<and>
           c' \<notin> dom (heap st) \<and>
           (\<forall>h. headers_ref st' c' = Some h \<longrightarrow> h \<notin> dom (heap st)) \<and>
           (\<forall>a\<in>dom (heap st). heap st' a = heap st a)"
proof -
  from assms(2) obtain h others where c: "heap st c = Some (ConfigObj h others)"
    by (auto simp: read_config_def split: option.splits obj.splits)
  have clt: "c < top st" using wf_store_lt [OF assms(1) c] .
  have fresh: "heap st (top st) = None" "heap st (Suc (top st)) = None"
    "heap st (Suc (Suc (top st))) = None"
    using assms(1) by (simp_all add: wf_store_def)
  show ?thesis
  proof (cases h)
    case None
    have cfg: "cfg = \<lparr>Config.headers = None, \<dots> = others\<rparr>"
      using assms(2) c None by (simp add: read_config_def)
    show ?thesis
      using c None clt fresh cfg
      by (auto simp: header_newconfig_undefined read_config_def headers_ref_def spread_def)
  next
    case (Some a)
    from assms(2) c Some obtain m where a: "heap st a = Some (HeadersObj m)"
      by (auto simp: read_config_def split: option.splits obj.splits)
    have alt: "a < top st" using wf_store_lt [OF assms(1) a] .
    have cfg: "cfg = \<lparr>Config.headers = Some m, \<dots> = others\<rparr>"
      using assms(2) c Some a by (simp add: read_config_def)
    show ?thesis
      using c Some clt alt a fresh cfg
      by (auto simp: header_newconfig_defined read_config_def headers_ref_def spread_def)
  qed
qed

lemma assign_bound: "key \<noteq> ''__proto__'' \<Longrightarrow> assign h key val = h(key \<mapsto> val)"
  by (simp add: assign_def)

lemmas sample_defs =
  sample_deps_def sample_doc_def sample_state_def follow_def getSiren_def findPossible_def
  findPossible_entity_def findPossible_link_def new_NavState_def getOr_def getSelf_def
  header_def accept_def spread_def assign_def applyStep_def toMulti_def followEach_def
  applySteps_def followLocation_def js_or_def truthy_def Let_def

section \<open>Properties of URL normalization\<close>

text \<open>
  C9, as the claim states it, does not hold: \<^verbatim>\<open>normalizeUrl\<close> also fails when the
  library throws, while the URL is not relative. With parameters supplied and an
  absolute URL whose text is not a valid template, the expansion throws; with a
  base and a \<^verbatim>\<open>mailto:\<close> reference, \<^verbatim>\<open>absoluteTo\<close> throws.
\<close>

theorem normalizeUrl_library_error_counterexample:
  "normalizeUrl sample_urijs ''http://api/a|b'' None (Some ''?page=2'') =
     Inl (Error ''Invalid Literal http://api/a|b'') \<and>
   URI sample_urijs ''http://api/a|b'' = Inr ''http://api/a|b'' \<and>
   \<not> is_relative sample_urijs ''http://api/a|b'' \<and>
   normalizeUrl sample_urijs ''mailto:a@b.c'' (Some ''http://api/'') None =
     Inl (Error ''URNs do not have any generally defined hierarchical components'') \<and>
   \<not> is_relative sample_urijs ''mailto:a@b.c''"
  by (simp add: normalizeUrl_def sample_urijs_def)

text \<open>
  C9, amended. An error thrown by the library, in parsing the reference, in
  \<^verbatim>\<open>absoluteTo\<close> (called for a base that is not empty) or in the expansion (called when
  parameters are supplied and the URL is absolute), is the result of
  \<^verbatim>\<open>normalizeUrl\<close>. When the reference is parsed and resolved to a URL (the parsed
  reference made absolute to the base; the parsed reference itself when there is no
  base or an empty one), \<^verbatim>\<open>normalizeUrl\<close> throws its own error, carrying that URL, if
  the URL is relative; if it is absolute, the result is the text of the URL without
  parameters, and with parameters the text of its expansion, or the error of the
  expansion. So without a library error it fails exactly when the URL is relative.
\<close>

theorem normalizeUrl_relative_or_library_error:
  fixes L :: "('u, 'p) urijs"
  shows "(\<forall>e. URI L h = Inl e \<longrightarrow> normalizeUrl L h base ps = Inl e) \<and>
         (\<forall>uri b e. URI L h = Inr uri \<and> base = Some b \<and> b \<noteq> [] \<and> absoluteTo L uri b = Inl e \<longrightarrow>
            normalizeUrl L h base ps = Inl e) \<and>
         (\<forall>uri url.
            URI L h = Inr uri \<and>
            (case base of
               None \<Rightarrow> Inr uri
             | Some b \<Rightarrow> if b = [] then Inr uri else absoluteTo L uri b) = Inr url \<longrightarrow>
            (is_relative L url \<longrightarrow>
               normalizeUrl L h base ps =
                 Inl (Error (''Normalized URL is relative: '' @ toString L url))) \<and>
            (\<not> is_relative L url \<longrightarrow>
               normalizeUrl L h base None = Inr (toString L url) \<and>
               (\<forall>p. normalizeUrl L h base (Some p) =
                      (case expand L (toString L url) p of
                         Inl e \<Rightarrow> Inl e
                       | Inr url' \<Rightarrow> Inr (toString L url')))))"
  by (auto simp: normalizeUrl_def split: option.splits sum.splits)

theorem normalizeUrl_relative_or_library_error_witness:
  "normalizeUrl sample_urijs ''items/5'' (Some ''https://api.example.com/'') (Some ''?page=2'') =
     Inr ''https://api.example.com/items/5?page=2'' \<and>
   normalizeUrl sample_urijs ''items/5'' None (Some ''?page=2'') =
     Inl (Error ''Normalized URL is relative: items/5'') \<and>
   normalizeUrl sample_urijs ''mailto:a@b.c'' (Some ''http://api/'') (Some ''?page=2'') =
     Inl (Error ''URNs do not have any generally defined hierarchical components'')"
proof -
  note t = normalizeUrl_relative_or_library_error [where L = sample_urijs]
  have u: "URI sample_urijs ''items/5'' = Inr ''items/5''"
    by (simp add: sample_urijs_def)
  have r: "(case Some ''https://api.example.com/'' of
              None \<Rightarrow> Inr ''items/5''
            | Some b \<Rightarrow> if b = [] then Inr ''items/5'' else absoluteTo sample_urijs ''items/5'' b) =
           Inr ''https://api.example.com/items/5''"
    by (simp add: sample_urijs_def)
  have a: "\<not> is_relative sample_urijs ''https://api.example.com/items/5''"
    by (simp add: sample_urijs_def)
  have r0: "(case None of
               None \<Rightarrow> Inr ''items/5''
             | Some b \<Rightarrow> if b = [] then Inr ''items/5'' else absoluteTo sample_urijs ''items/5'' b) =
            (Inr ''items/5'' :: error + string)"
    by simp
  have rel: "is_relative sample_urijs ''items/5''"
    by (simp add: sample_urijs_def)
  have m: "URI sample_urijs ''mailto:a@b.c'' = Inr ''mailto:a@b.c''"
    by (simp add: sample_urijs_def)
  have urn: "absoluteTo sample_urijs ''mailto:a@b.c'' ''http://api/'' =
               Inl (Error ''URNs do not have any generally defined hierarchical components'')"
    by (simp add: sample_urijs_def)
  have c1: "normalizeUrl sample_urijs ''items/5'' (Some ''https://api.example.com/'')
              (Some ''?page=2'') =
            (case expand sample_urijs (toString sample_urijs ''https://api.example.com/items/5'')
                    ''?page=2'' of
               Inl e \<Rightarrow> Inl e
             | Inr url' \<Rightarrow> Inr (toString sample_urijs url'))"
    using t [where h = "''items/5''" and base = "Some ''https://api.example.com/''",
             THEN conjunct2, THEN conjunct2, rule_format, OF conjI, OF u r,
             THEN conjunct2, rule_format, OF a, THEN conjunct2, rule_format] .
  have c2: "normalizeUrl sample_urijs ''items/5'' None (Some ''?page=2'') =
            Inl (Error (''Normalized URL is relative: '' @ toString sample_urijs ''items/5''))"
    using t [where h = "''items/5''" and base = None and ps = "Some ''?page=2''",
             THEN conjunct2, THEN conjunct2, rule_format, OF conjI, OF u r0,
             THEN conjunct1, rule_format, OF rel] .
  have c3: "normalizeUrl sample_urijs ''mailto:a@b.c'' (Some ''http://api/'') (Some ''?page=2'') =
            Inl (Error ''URNs do not have any generally defined hierarchical components'')"
    using t [where h = "''mailto:a@b.c''" and base = "Some ''http://api/''"
               and ps = "Some ''?page=2''",
             THEN conjunct2, THEN conjunct1, rule_format,
             of "''mailto:a@b.c''" "''http://api/''"] m urn
    by simp
  show ?thesis
    using c1 c2 c3 by (simp add: sample_urijs_def)
qed

section \<open>Properties of the reducers\<close>

text \<open>
  C5. \<^verbatim>\<open>reduce\<close> applies the steps from left to right. With no step it returns the
  initial promise unchanged. With a resolved state and a first step, it continues with
  what that step returns for this state. A rejected promise stays rejected whatever
  the steps are. The result for a list extended by one step is that step applied to
  the result for the list, so the state returned is the one the last step produced
  from its predecessor's. When the steps before a step produce a state on which that
  step fails, the reduction fails with the same error, whatever the later steps are.
\<close>

theorem reduce_left_to_right:
  "reduce cur' [] cache = cur' \<and>
   reduce (Inr state) (step # steps) cache = reduce (step state cache) steps cache \<and>
   reduce (Inl e) steps cache = Inl e \<and>
   reduce cur' (steps @ [step]) cache =
     (case reduce cur' steps cache of Inl e' \<Rightarrow> Inl e' | Inr s \<Rightarrow> step s cache) \<and>
   (reduce cur' pre cache = Inr s \<and> step s cache = Inl e \<longrightarrow>
      reduce cur' (pre @ step # post) cache = Inl e)"
proof -
  have a: "reduce cur' (steps @ [step]) cache =
     (case reduce cur' steps cache of Inl e' \<Rightarrow> Inl e' | Inr s \<Rightarrow> step s cache)"
    by (simp add: reduce_append applyStep_def split: sum.splits)
  have b: "reduce cur' pre cache = Inr s \<and> step s cache = Inl e \<longrightarrow>
      reduce cur' (pre @ step # post) cache = Inl e"
    by (simp add: reduce_append applyStep_def reduce_Inl)
  show ?thesis using a b by (simp add: reduce_Inl applyStep_def)
qed

theorem reduce_left_to_right_witness:
  "reduce (Inr sample_state)
     [header sample_deps ''X-A'' ''1'', follow sample_deps ''nope'' None None,
      followLocation sample_deps] Map.empty =
   Inl (Error ''Cannot follow relation 'nope', no links with that relation'')"
proof -
  let ?s = "\<lparr>cur = ''http://api/'', config = \<lparr>headers = Some [''X-A'' \<mapsto> ''1'']\<rparr>,
              lastResponse = None :: string option\<rparr>"
  let ?e = "Error ''Cannot follow relation 'nope', no links with that relation''"
  have pre: "reduce (Inr sample_state) [header sample_deps ''X-A'' ''1''] Map.empty = Inr ?s"
    by (simp add: sample_defs)
  have fails: "follow sample_deps ''nope'' None None ?s Map.empty = Inl ?e"
    by (simp add: sample_defs)
  show ?thesis
    using pre fails
      reduce_left_to_right
        [where cur' = "Inr sample_state" and pre = "[header sample_deps ''X-A'' ''1'']"
           and step = "follow sample_deps ''nope'' None None"
           and post = "[followLocation sample_deps]" and cache = Map.empty
           and s = ?s and e = ?e]
    by simp
qed

text \<open>
  C6. When the wave step returns the successor list \<open>succ s\<close> for every state \<open>s\<close> of
  the wave, \<^verbatim>\<open>applySteps\<close> returns the concatenation of these lists in the order of the
  input states, and \<^verbatim>\<open>reduceEach\<close> goes on with it as the next working set. When
  every successor list is a single state \<open>g s\<close>, one wave yields the list of the
  \<open>g s\<close> in the order of the inputs, as many as there are inputs.
\<close>

theorem reduceEach_wave_concat:
  assumes "\<forall>s\<in>set states. step s cache = Inr (succ s)"
  shows "applySteps step states cache = Inr (concat (map succ states)) \<and>
         reduceEach (Inr states) (step # steps) cache =
           reduceEach (Inr (concat (map succ states))) steps cache \<and>
         ((\<forall>s\<in>set states. succ s = [g s]) \<longrightarrow>
            reduceEach (Inr states) [step] cache = Inr (map g states) \<and>
            length (map g states) = length states)"
proof -
  have a: "applySteps step states cache = Inr (concat (map succ states))"
    using assms applySteps_loop_ok [of states step cache succ "[]"] by (simp add: applySteps_def)
  have c: "concat (map succ states) = map g states" if "\<forall>s\<in>set states. succ s = [g s]"
    using that by (induction states) simp_all
  show ?thesis using a c by simp
qed

theorem reduceEach_wave_concat_witness:
  "reduceEach (Inr [sample_state, sample_state\<lparr>cur := ''http://api/new''\<rparr>])
     [toMulti (header sample_deps ''X-A'' ''1'')] Map.empty =
   Inr [\<lparr>cur = ''http://api/'', config = \<lparr>headers = Some [''X-A'' \<mapsto> ''1'']\<rparr>,
          lastResponse = None\<rparr>,
        \<lparr>cur = ''http://api/new'', config = \<lparr>headers = Some [''X-A'' \<mapsto> ''1'']\<rparr>,
          lastResponse = None\<rparr>]"
proof -
  let ?g = "\<lambda>s :: (unit, string) NavState.
              \<lparr>cur = cur s, config = \<lparr>headers = Some [''X-A'' \<mapsto> ''1'']\<rparr>,
               lastResponse = None :: string option\<rparr>"
  let ?states = "[sample_state, sample_state\<lparr>cur := ''http://api/new''\<rparr>]"
  have each: "\<forall>s\<in>set ?states. toMulti (header sample_deps ''X-A'' ''1'') s Map.empty = Inr [?g s]"
    by (simp add: sample_defs)
  show ?thesis
    using each
      reduceEach_wave_concat
        [where states = ?states and step = "toMulti (header sample_deps ''X-A'' ''1'')"
           and cache = Map.empty and succ = "\<lambda>s. [?g s]" and g = ?g and steps = "[]"]
    by (simp add: sample_state_def)
qed

section \<open>Properties of follow\<close>

text \<open>
  C1. Once the document of the current state is fetched and the candidates for the
  relation are resolved, \<^verbatim>\<open>follow\<close> goes by their number: with none it fails with an
  error whose message names the relation; with exactly one it returns that candidate;
  with more than one and no disambiguator it fails with an error whose message names
  the relation and ends with the printed list of all candidates; with more than one
  and a disambiguator it returns what the disambiguator returns for the whole list.
\<close>

theorem follow_by_number_of_candidates:
  assumes "getSiren D state = Inr siren"
    and "findPossible D rel' siren state cache parameters = Inr possible"
  shows "(possible = [] \<longrightarrow>
            follow D rel' parameters which state cache =
              Inl (Error (''Cannot follow relation '' @ quote @ rel' @ quote @
                          '', no links with that relation''))) \<and>
         (\<forall>c. possible = [c] \<longrightarrow> follow D rel' parameters which state cache = Inr c) \<and>
         (1 < length possible \<longrightarrow>
            follow D rel' parameters None state cache =
              Inl (Error (''Multiple links with relation '' @ quote @ rel' @ quote @
                          '' found when only one was expected in '' @
                          JSON_stringify D possible)) \<and>
            (\<forall>w. follow D rel' parameters (Some w) state cache = w possible))"
  using assms by (auto simp: follow_def)

theorem follow_by_number_of_candidates_witness:
  "follow sample_deps ''nope'' None None sample_state Map.empty =
     Inl (Error ''Cannot follow relation 'nope', no links with that relation'') \<and>
   follow sample_deps ''self'' None None sample_state Map.empty = Inr sample_state \<and>
   follow sample_deps ''item'' None None sample_state Map.empty =
     Inl (Error (''Multiple links with relation 'item' found when only one was expected in '' @
                 ''http://api/items/1, http://api/items/2, http://api/?page=2'')) \<and>
   follow sample_deps ''item'' None (Some (\<lambda>states. Inr (last states))) sample_state Map.empty =
     Inr (sample_state\<lparr>cur := ''http://api/?page=2''\<rparr>)"
proof -
  let ?three = "[sample_state\<lparr>cur := ''http://api/items/1''\<rparr>,
                 sample_state\<lparr>cur := ''http://api/items/2''\<rparr>,
                 sample_state\<lparr>cur := ''http://api/?page=2''\<rparr>]"
  have doc: "getSiren sample_deps sample_state = Inr sample_doc"
    by (simp add: sample_defs)
  have none: "findPossible sample_deps ''nope'' sample_doc sample_state Map.empty None = Inr []"
    by (simp add: sample_defs)
  have one: "findPossible sample_deps ''self'' sample_doc sample_state Map.empty None =
               Inr [sample_state]"
    by (simp add: sample_defs)
  have three: "findPossible sample_deps ''item'' sample_doc sample_state Map.empty None =
                 Inr ?three"
    by (simp add: sample_defs)
  show ?thesis
    using follow_by_number_of_candidates [OF doc none, where which = None]
      follow_by_number_of_candidates [OF doc one, where which = None]
      follow_by_number_of_candidates [OF doc three]
    by (simp add: sample_deps_def sample_state_def)
qed

text \<open>
  C10. With at most one candidate the result of \<^verbatim>\<open>follow\<close> does not depend on the
  disambiguator, supplied or not, failing or not: it is the single candidate, or the
  error for no candidate. (With more than one candidate the result is the
  disambiguator's, by the previous theorem.)
\<close>

theorem follow_calls_disambiguator_only_when_ambiguous:
  assumes "getSiren D state = Inr siren"
    and "findPossible D rel' siren state cache parameters = Inr possible"
    and "length possible \<le> 1"
  shows "follow D rel' parameters which state cache =
           follow D rel' parameters which' state cache \<and>
         follow D rel' parameters which state cache =
           (case possible of
              [] \<Rightarrow> Inl (Error (''Cannot follow relation '' @ quote @ rel' @ quote @
                                '', no links with that relation''))
            | c # _ \<Rightarrow> Inr c)"
  using assms by (cases possible) (auto simp: follow_def)

theorem follow_calls_disambiguator_only_when_ambiguous_witness:
  "follow sample_deps ''self'' None (Some (\<lambda>states. Inl (Error ''never called'')))
     sample_state Map.empty = Inr sample_state \<and>
   follow sample_deps ''nope'' None (Some (\<lambda>states. Inr (last states)))
     sample_state Map.empty =
     Inl (Error ''Cannot follow relation 'nope', no links with that relation'')"
proof -
  have doc: "getSiren sample_deps sample_state = Inr sample_doc"
    by (simp add: sample_defs)
  have none: "findPossible sample_deps ''nope'' sample_doc sample_state Map.empty None = Inr []"
    by (simp add: sample_defs)
  have one: "findPossible sample_deps ''self'' sample_doc sample_state Map.empty None =
               Inr [sample_state]"
    by (simp add: sample_defs)
  show ?thesis
    using follow_calls_disambiguator_only_when_ambiguous
            [OF doc one, where which = "Some (\<lambda>states. Inl (Error ''never called''))"]
      follow_calls_disambiguator_only_when_ambiguous
            [OF doc none, where which = "Some (\<lambda>states. Inr (last states))"]
    by simp
qed

section \<open>Properties of findPossible\<close>

text \<open>
  C2, as the claim states it, does not hold: the sub-entities are visited once, in
  document order, and each matching one is pushed when it is visited, whether it is
  an embedded link or an embedded representation. For a document whose first
  sub-entity is a representation (with a self link) and whose second is an embedded
  link, both with the relation, the candidate of the representation comes first.
\<close>

theorem findPossible_three_phases_counterexample:
  "findPossible sample_deps ''item''
     \<lparr>entities = Some
        [\<lparr>SubEntity.rel = [''item''], href = None,
          links = Some [\<lparr>Link.rel = [''self''], href = ''http://api/items/1''\<rparr>]\<rparr>,
         \<lparr>SubEntity.rel = [''item''], href = Some ''http://api/items/2'', links = None\<rparr>],
      links = None\<rparr>
     sample_state Map.empty None =
   Inr [sample_state\<lparr>cur := ''http://api/items/1''\<rparr>,
        sample_state\<lparr>cur := ''http://api/items/2''\<rparr>]"
  by (simp add: sample_defs)

text \<open>
  C2, amended. \<^verbatim>\<open>findPossible\<close> returns a list exactly when every target of the
  relation resolves to a state, and the list is then these states, position by
  position, in this order: one for each matching sub-entity in document order (an
  embedded link by its \<^verbatim>\<open>href\<close>, an embedded representation by its self link, as
  they occur), then one for each matching top-level link in document order.
\<close>

theorem findPossible_document_order:
  "findPossible D rel' siren state cache parameters = Inr possible \<longleftrightarrow>
   list_all2 (\<lambda>ref ns. candidate D state cache parameters ref = Inr ns)
     (List.map_filter (subentity_target D rel')
        (case Siren.entities siren of None \<Rightarrow> [] | Some es \<Rightarrow> es) @
      map Link.href
        (filter (\<lambda>link. rel' \<in> set (Link.rel link))
           (case Siren.links siren of None \<Rightarrow> [] | Some ls \<Rightarrow> ls)))
     possible"
  using forEach_push_iff [of D state cache parameters "targets D rel' siren" "[]" possible]
  by (simp add: findPossible_push targets_def)

theorem findPossible_document_order_witness:
  "findPossible sample_deps ''item'' sample_doc sample_state Map.empty None =
     Inr [sample_state\<lparr>cur := ''http://api/items/1''\<rparr>,
          sample_state\<lparr>cur := ''http://api/items/2''\<rparr>,
          sample_state\<lparr>cur := ''http://api/?page=2''\<rparr>]"
proof -
  have t: "List.map_filter (subentity_target sample_deps ''item'')
             (case Siren.entities sample_doc of None \<Rightarrow> [] | Some es \<Rightarrow> es) @
           map Link.href
             (filter (\<lambda>link. ''item'' \<in> set (Link.rel link))
                (case Siren.links sample_doc of None \<Rightarrow> [] | Some ls \<Rightarrow> ls)) =
           [''http://api/items/1'', ''items/2'', ''http://api/?page=2'']"
    by (simp add: subentity_target_def List.map_filter_simps truthy_def
          getSelf_def sample_deps_def sample_doc_def)
  show ?thesis
    unfolding findPossible_document_order t
    by (simp add: candidate_def new_NavState_def getOr_def sample_deps_def sample_state_def)
qed

text \<open>
  C8. A sub-entity that has no \<^verbatim>\<open>href\<close>, is not an embedded link and has no link with
  the relation \<^verbatim>\<open>self\<close> leaves the list of candidates as it is and raises no error,
  whether it matches the relation or not; and \<^verbatim>\<open>findPossible\<close> gives the same result
  (candidates or error) for the document and for the document without this
  sub-entity.
\<close>

theorem findPossible_skips_representation_without_self:
  assumes "SubEntity.href e = None"
    and "\<not> isEmbeddedLink D e"
    and "\<forall>l\<in>set (case SubEntity.links e of None \<Rightarrow> [] | Some ls \<Rightarrow> ls). ''self'' \<notin> set (Link.rel l)"
    and "Siren.entities siren = Some (before @ e # after)"
  shows "findPossible_entity D rel' state cache parameters e possible = Inr possible \<and>
         findPossible D rel' siren state cache parameters =
           findPossible D rel' (siren\<lparr>entities := Some (before @ after)\<rparr>) state cache parameters"
proof -
  have t: "subentity_target D rel' e = None"
    using assms(1) getSelf_None [OF assms(3)] by (simp add: subentity_target_def truthy_def)
  have a: "findPossible_entity D rel' state cache parameters e possible = Inr possible"
    using t by (simp add: findPossible_entity_target)
  have b: "targets D rel' siren = targets D rel' (siren\<lparr>entities := Some (before @ after)\<rparr>)"
    using t assms(4) by (simp add: targets_def map_filter_append List.map_filter_simps)
  show ?thesis using a b by (simp add: findPossible_push)
qed

theorem findPossible_skips_representation_without_self_witness:
  "findPossible sample_deps ''item'' sample_doc sample_state Map.empty None =
   findPossible sample_deps ''item''
     (sample_doc\<lparr>entities := Some
        [\<lparr>SubEntity.rel = [''item''], href = None,
          links = Some [\<lparr>Link.rel = [''self''], href = ''http://api/items/1''\<rparr>]\<rparr>,
         \<lparr>SubEntity.rel = [''item''], href = Some ''items/2'', links = None\<rparr>]\<rparr>)
     sample_state Map.empty None"
  using findPossible_skips_representation_without_self
          [where D = sample_deps and siren = sample_doc and after = "[]"
             and e = "\<lparr>SubEntity.rel = [''item''], href = None, links = Some []\<rparr>"
             and before = "[\<lparr>SubEntity.rel = [''item''], href = None,
                          links = Some [\<lparr>Link.rel = [''self''], href = ''http://api/items/1''\<rparr>]\<rparr>,
                         \<lparr>SubEntity.rel = [''item''], href = Some ''items/2'', links = None\<rparr>]"
             and rel' = "''item''" and state = sample_state and cache = Map.empty
             and parameters = None]
  by (simp add: sample_deps_def sample_doc_def)

section \<open>Properties of followLocation\<close>

text \<open>
  C7. Let the transport answer the request of the current state. If \<^verbatim>\<open>Location\<close>, or
  else \<^verbatim>\<open>location\<close>, has a value that is not empty, \<^verbatim>\<open>followLocation\<close> is the state
  built at that value rebased on the current state: when the rebasing gives
  \<open>locurl\<close> and the constructor accepts it, the new state is at that URL, with the
  configuration of the current state and the cache's entry for \<open>locurl\<close>. If neither
  key has such a value, it fails with an error whose message lists, joined by a comma
  and a space, the header keys of the response.
\<close>

theorem followLocation_reads_Location:
  assumes "getRequest D state = Inr resp"
  shows "(\<forall>loc. loc \<noteq> [] \<and>
            (map_of (ResponseData.headers resp) ''Location'' = Some loc \<or>
             map_of (ResponseData.headers resp) ''Location'' \<in> {None, Some []} \<and>
             map_of (ResponseData.headers resp) ''location'' = Some loc) \<longrightarrow>
            followLocation D state cache = candidate D state cache None loc \<and>
            (\<forall>locurl url. rebase D state loc = Inr locurl \<and> NavState_url D locurl None = Inr url \<longrightarrow>
               followLocation D state cache =
                 Inr \<lparr>cur = url, config = config state, lastResponse = getOr cache locurl\<rparr>)) \<and>
         (map_of (ResponseData.headers resp) ''Location'' \<in> {None, Some []} \<and>
          map_of (ResponseData.headers resp) ''location'' \<in> {None, Some []} \<longrightarrow>
            followLocation D state cache =
              Inl (Error (''No 'Location' header found in '' @ quote @
                          join '', '' (map fst (ResponseData.headers resp)) @ quote)))"
  using assms
  by (auto simp: followLocation_def js_or_def truthy_def candidate_def new_NavState_def Let_def
      split: option.splits sum.splits)

theorem followLocation_reads_Location_witness:
  "followLocation sample_deps (sample_state\<lparr>cur := ''http://api/new''\<rparr>) Map.empty =
     Inr (sample_state\<lparr>cur := ''http://api/newitems/3''\<rparr>) \<and>
   followLocation sample_deps sample_state Map.empty =
     Inl (Error (''No 'Location' header found in 'content-length, etag'' @ quote))"
proof -
  let ?new = "sample_state\<lparr>cur := ''http://api/new''\<rparr>"
  have r1: "getRequest sample_deps ?new =
              Inr \<lparr>data = (), headers = [(''content-length'', ''0''), (''location'', ''items/3'')],
                   status = 201\<rparr>"
    by (simp add: sample_deps_def sample_state_def)
  have r2: "getRequest sample_deps sample_state =
              Inr \<lparr>data = (), headers = [(''content-length'', ''0''), (''etag'', ''x'')],
                   status = 200\<rparr>"
    by (simp add: sample_deps_def sample_state_def)
  have rb: "rebase sample_deps ?new ''items/3'' = Inr ''http://api/newitems/3''"
    by (simp add: sample_deps_def sample_state_def)
  have nu: "NavState_url sample_deps ''http://api/newitems/3'' None = Inr ''http://api/newitems/3''"
    by (simp add: sample_deps_def)
  show ?thesis
    using followLocation_reads_Location [OF r1, where cache = Map.empty] rb nu
      followLocation_reads_Location [OF r2, where cache = Map.empty]
    by (simp add: getOr_def sample_state_def candidate_def new_NavState_def)
qed

section \<open>Properties of the header steps\<close>

text \<open>
  \<^verbatim>\<open>accept\<close> of \<^verbatim>\<open>steps.ts\<close> returns a state exactly when the headers have no own
  entry named \<^verbatim>\<open>hasOwnProperty\<close> (with one, it throws a \<^verbatim>\<open>TypeError\<close>) and the
  constructor accepts the current URL. In the state it returns, an earlier
  \<^verbatim>\<open>Accept\<close> value \<open>v\<close> has become \<open>ctype\<close>, a comma, a space and \<open>v\<close>; without an
  earlier value it is \<open>ctype\<close>. So accepting \<^verbatim>\<open>application/json\<close> and then
  \<^verbatim>\<open>application/xml\<close>, from a state without the header, gives
  \<^verbatim>\<open>application/xml, application/json\<close>.
\<close>

theorem accept_accumulates:
  "((\<exists>s'. accept D ctype state cache = Inr s') =
      (spread (Config.headers (config state)) ''hasOwnProperty'' = None \<and>
       (\<exists>url. NavState_url D (cur state) None = Inr url))) \<and>
   (spread (Config.headers (config state)) ''hasOwnProperty'' \<noteq> None \<longrightarrow>
      accept D ctype state cache =
        Inl (TypeError ''newconfig.headers.hasOwnProperty is not a function'')) \<and>
   (spread (Config.headers (config state)) ''Accept'' = Some v \<and>
    accept D ctype state cache = Inr s' \<longrightarrow>
      spread (Config.headers (config s')) ''Accept'' = Some (ctype @ '', '' @ v)) \<and>
   (spread (Config.headers (config state)) ''Accept'' = None \<and>
    accept D ctype state cache = Inr s' \<longrightarrow>
      spread (Config.headers (config s')) ''Accept'' = Some ctype) \<and>
   (spread (Config.headers (config state)) ''Accept'' = None \<and>
    accept D ''application/json'' state cache = Inr s1 \<and>
    accept D ''application/xml'' s1 cache' = Inr s2 \<longrightarrow>
      spread (Config.headers (config s2)) ''Accept'' = Some ''application/xml, application/json'')"
proof -
  have res: "accept D t st ca = Inr r \<Longrightarrow>
      config r =
        (config st)\<lparr>Config.headers :=
           Some ((spread (Config.headers (config st)))
                   (''Accept'' \<mapsto>
                      (case spread (Config.headers (config st)) ''Accept'' of
                         None \<Rightarrow> t
                       | Some v \<Rightarrow> t @ '', '' @ v)))\<rparr>" for t st ca r
    by (auto simp: accept_def new_NavState_def spread_def Let_def
        split: option.splits sum.splits)
  have a: "(\<exists>s'. accept D ctype state cache = Inr s') =
      (spread (Config.headers (config state)) ''hasOwnProperty'' = None \<and>
       (\<exists>url. NavState_url D (cur state) None = Inr url))"
    by (auto simp: accept_def new_NavState_def spread_def Let_def
        split: option.splits sum.splits)
  have b: "spread (Config.headers (config state)) ''hasOwnProperty'' \<noteq> None \<longrightarrow>
      accept D ctype state cache =
        Inl (TypeError ''newconfig.headers.hasOwnProperty is not a function'')"
    by (auto simp: accept_def spread_def Let_def split: option.splits)
  have c: "spread (Config.headers (config state)) ''Accept'' = Some v \<and>
    accept D ctype state cache = Inr s' \<longrightarrow>
      spread (Config.headers (config s')) ''Accept'' = Some (ctype @ '', '' @ v)"
    using res [of ctype state cache s'] by (auto simp: spread_def)
  have d: "spread (Config.headers (config state)) ''Accept'' = None \<and>
    accept D ctype state cache = Inr s' \<longrightarrow>
      spread (Config.headers (config s')) ''Accept'' = Some ctype"
    using res [of ctype state cache s'] by (auto simp: spread_def)
  have e: "spread (Config.headers (config state)) ''Accept'' = None \<and>
    accept D ''application/json'' state cache = Inr s1 \<and>
    accept D ''application/xml'' s1 cache' = Inr s2 \<longrightarrow>
      spread (Config.headers (config s2)) ''Accept'' = Some ''application/xml, application/json''"
  proof
    assume h: "spread (Config.headers (config state)) ''Accept'' = None \<and>
      accept D ''application/json'' state cache = Inr s1 \<and>
      accept D ''application/xml'' s1 cache' = Inr s2"
    have r1: "spread (Config.headers (config s1)) ''Accept'' = Some ''application/json''"
      using h res [of "''application/json''" state cache s1] by (simp add: spread_def)
    show "spread (Config.headers (config s2)) ''Accept'' =
            Some ''application/xml, application/json''"
      using h r1 res [of "''application/xml''" s1 cache' s2] by (simp add: spread_def)
  qed
  show ?thesis
    by (intro conjI) (rule a, rule b, rule c, rule d, rule e)
qed

theorem accept_accumulates_witness:
  "accept sample_deps ''application/json'' sample_state Map.empty =
     Inr (sample_state\<lparr>config := \<lparr>headers = Some [''Accept'' \<mapsto> ''application/json'']\<rparr>\<rparr>) \<and>
   accept sample_deps ''application/xml''
     (sample_state\<lparr>config := \<lparr>headers = Some [''Accept'' \<mapsto> ''application/json'']\<rparr>\<rparr>) Map.empty =
     Inr (sample_state\<lparr>config :=
            \<lparr>headers = Some [''Accept'' \<mapsto> ''application/xml, application/json'']\<rparr>\<rparr>) \<and>
   spread (Config.headers (config (sample_state\<lparr>config :=
            \<lparr>headers = Some [''Accept'' \<mapsto> ''application/xml, application/json'']\<rparr>\<rparr>)))
     ''Accept'' = Some ''application/xml, application/json''"
proof -
  let ?s1 = "sample_state\<lparr>config := \<lparr>headers = Some [''Accept'' \<mapsto> ''application/json'']\<rparr>\<rparr>"
  let ?s2 = "sample_state\<lparr>config :=
               \<lparr>headers = Some [''Accept'' \<mapsto> ''application/xml, application/json'']\<rparr>\<rparr>"
  have none: "spread (Config.headers (config sample_state)) ''Accept'' = None"
    by (simp add: sample_state_def spread_def)
  have a1: "accept sample_deps ''application/json'' sample_state Map.empty = Inr ?s1"
    by (simp add: sample_defs)
  have a2: "accept sample_deps ''application/xml'' ?s1 Map.empty = Inr ?s2"
    by (simp add: sample_defs)
  note last = accept_accumulates
        [where D = sample_deps and state = sample_state and cache = Map.empty
           and cache' = Map.empty and ?s1.0 = ?s1 and ?s2.0 = ?s2,
         THEN conjunct2, THEN conjunct2, THEN conjunct2, THEN conjunct2, rule_format]
  have "spread (Config.headers (config ?s2)) ''Accept'' =
          Some ''application/xml, application/json''"
    by (rule last) (intro conjI none a1 a2)
  then show ?thesis using a1 a2 by simp
qed

text \<open>
  The \<^verbatim>\<open>accept\<close> of \<^verbatim>\<open>steps/build.ts\<close> is \<^verbatim>\<open>header\<close> at the key \<^verbatim>\<open>Accept\<close>, and the
  state it returns has the new value alone under \<^verbatim>\<open>Accept\<close>, whatever the earlier
  value was.
\<close>

lemma build_accept_is_header: "build_accept D ctype = build_header D ''Accept'' ctype"
  by (simp add: build_accept_def)

lemma build_accept_replaces:
  assumes "build_accept D ctype state = Inr s'"
  shows "spread (Config.headers (config s')) ''Accept'' = Some ctype"
  using assms
  by (auto simp: build_accept_def build_header_def headerConfig_def new_NavState_def spread_def
      split: sum.splits)

text \<open>
  C3. The repository defines \<^verbatim>\<open>accept\<close> twice, and the two definitions disagree on a
  state that already has an \<^verbatim>\<open>Accept\<close> header. On the state whose \<^verbatim>\<open>Accept\<close> is
  \<^verbatim>\<open>application/json\<close>, \<^verbatim>\<open>accept("application/xml")\<close> of \<^verbatim>\<open>steps.ts\<close> returns the
  accumulated value \<^verbatim>\<open>application/xml, application/json\<close>, as the claim says, and
  \<^verbatim>\<open>accept("application/xml")\<close> of \<^verbatim>\<open>steps/build.ts\<close> returns \<^verbatim>\<open>application/xml\<close>: it
  overwrites.
\<close>

theorem build_accept_overwrites:
  "accept sample_deps ''application/xml''
     (sample_state\<lparr>config := \<lparr>headers = Some [''Accept'' \<mapsto> ''application/json'']\<rparr>\<rparr>) Map.empty =
     Inr (sample_state\<lparr>config :=
            \<lparr>headers = Some [''Accept'' \<mapsto> ''application/xml, application/json'']\<rparr>\<rparr>) \<and>
   build_accept sample_deps ''application/xml''
     (sample_state\<lparr>config := \<lparr>headers = Some [''Accept'' \<mapsto> ''application/json'']\<rparr>\<rparr>) =
     Inr (sample_state\<lparr>config := \<lparr>headers = Some [''Accept'' \<mapsto> ''application/xml'']\<rparr>\<rparr>)"
  by (simp add: sample_defs build_accept_def build_header_def headerConfig_def)

text \<open>
  C4, as the claim states it, does not hold. The new state carries the cache's entry
  for the current URL, not the response of the input state: here the input state has
  a response and the cache has no entry. And not every key is bound: for the key
  \<^verbatim>\<open>__proto__\<close>, on headers without an own entry of that name, the new headers have
  no entry either.
\<close>

theorem header_keeps_response_counterexample:
  "header sample_deps ''X-A'' ''1'' (sample_state\<lparr>lastResponse := Some ''body''\<rparr>) Map.empty =
     Inr (sample_state\<lparr>config := \<lparr>headers = Some [''X-A'' \<mapsto> ''1'']\<rparr>\<rparr>) \<and>
   lastResponse (sample_state\<lparr>lastResponse := Some ''body''\<rparr>) = Some ''body'' \<and>
   lastResponse (sample_state\<lparr>config := \<lparr>headers = Some [''X-A'' \<mapsto> ''1'']\<rparr>\<rparr>) = None \<and>
   header sample_deps ''__proto__'' ''1'' sample_state Map.empty =
     Inr (sample_state\<lparr>config := \<lparr>headers = Some Map.empty\<rparr>\<rparr>)"
  by (simp add: sample_defs)

text \<open>
  C4, amended. Let the key be other than \<^verbatim>\<open>__proto__\<close>. In the state that
  \<^verbatim>\<open>header\<close> returns, the configuration is the input state's with \<open>key\<close> bound to
  \<open>val\<close> in the headers (every other header entry and every other field of the
  configuration as before), the URL is the one the constructor gives for the input
  state's URL, and the response is the cache's entry for the input state's URL. When
  the constructor returns the input state's URL unchanged, \<^verbatim>\<open>header\<close> returns such a
  state, at the same URL. After \<^verbatim>\<open>header\<close> with \<open>v1\<close> and then with \<open>v2\<close> at the same
  key, the key is bound to \<open>v2\<close>. On the store of objects: the statements that build
  the new configuration succeed on a well-formed store; the new configuration object
  reads as above; it and its headers object are new objects; every object that
  existed before is unchanged, so the input state's configuration reads as before.
\<close>

theorem header_sets_key_and_keeps_rest:
  assumes "key \<noteq> ''__proto__''"
  shows
  "(header D key val state cache = Inr s' \<longrightarrow>
      config s' =
        (config state)\<lparr>Config.headers :=
           Some ((spread (Config.headers (config state)))(key \<mapsto> val))\<rparr> \<and>
      NavState_url D (cur state) None = Inr (cur s') \<and>
      lastResponse s' = getOr cache (cur state)) \<and>
   (NavState_url D (cur state) None = Inr (cur state) \<longrightarrow>
      header D key val state cache =
        Inr \<lparr>cur = cur state,
             config = (config state)\<lparr>Config.headers :=
                        Some ((spread (Config.headers (config state)))(key \<mapsto> val))\<rparr>,
             lastResponse = getOr cache (cur state)\<rparr>) \<and>
   (header D key v1 state cache = Inr s1 \<and> header D key v2 s1 cache' = Inr s2 \<longrightarrow>
      config s2 =
        (config state)\<lparr>Config.headers :=
           Some ((spread (Config.headers (config state)))(key \<mapsto> v2))\<rparr>) \<and>
   (wf_store st \<and> read_config st c = Some (config state) \<longrightarrow>
      (\<exists>c' st'. header_newconfig key val c st = Some (c', st') \<and>
         read_config st' c' =
           Some ((config state)\<lparr>Config.headers :=
                   Some ((spread (Config.headers (config state)))(key \<mapsto> val))\<rparr>) \<and>
         read_config st' c = Some (config state) \<and>
         c' \<notin> dom (heap st) \<and>
         (\<forall>h. headers_ref st' c' = Some h \<longrightarrow> h \<notin> dom (heap st)) \<and>
         (\<forall>a\<in>dom (heap st). heap st' a = heap st a)))"
proof -
  note asg = assign_bound [OF assms]
  have a: "header D key val state cache = Inr s' \<longrightarrow>
      config s' =
        (config state)\<lparr>Config.headers :=
           Some ((spread (Config.headers (config state)))(key \<mapsto> val))\<rparr> \<and>
      NavState_url D (cur state) None = Inr (cur s') \<and>
      lastResponse s' = getOr cache (cur state)" for val s' state cache
    by (auto simp: header_def new_NavState_def Let_def asg split: option.splits sum.splits)
  have b: "NavState_url D (cur state) None = Inr (cur state) \<longrightarrow>
      header D key val state cache =
        Inr \<lparr>cur = cur state,
             config = (config state)\<lparr>Config.headers :=
                        Some ((spread (Config.headers (config state)))(key \<mapsto> val))\<rparr>,
             lastResponse = getOr cache (cur state)\<rparr>"
    by (auto simp: header_def new_NavState_def Let_def asg split: option.splits sum.splits)
  have c: "header D key v1 state cache = Inr s1 \<and> header D key v2 s1 cache' = Inr s2 \<longrightarrow>
      config s2 =
        (config state)\<lparr>Config.headers :=
           Some ((spread (Config.headers (config state)))(key \<mapsto> v2))\<rparr>"
  proof
    assume h: "header D key v1 state cache = Inr s1 \<and> header D key v2 s1 cache' = Inr s2"
    have c1: "config s1 =
        (config state)\<lparr>Config.headers :=
           Some ((spread (Config.headers (config state)))(key \<mapsto> v1))\<rparr>"
      using h a [of v1 state cache s1] by simp
    have c2: "config s2 =
        (config s1)\<lparr>Config.headers :=
           Some ((spread (Config.headers (config s1)))(key \<mapsto> v2))\<rparr>"
      using h a [of v2 s1 cache' s2] by simp
    show "config s2 =
        (config state)\<lparr>Config.headers :=
           Some ((spread (Config.headers (config state)))(key \<mapsto> v2))\<rparr>"
      by (simp add: c2 c1 spread_def)
  qed
  have d: "wf_store st \<and> read_config st c = Some (config state) \<longrightarrow>
      (\<exists>c' st'. header_newconfig key val c st = Some (c', st') \<and>
         read_config st' c' =
           Some ((config state)\<lparr>Config.headers :=
                   Some ((spread (Config.headers (config state)))(key \<mapsto> val))\<rparr>) \<and>
         read_config st' c = Some (config state) \<and>
         c' \<notin> dom (heap st) \<and>
         (\<forall>h. headers_ref st' c' = Some h \<longrightarrow> h \<notin> dom (heap st)) \<and>
         (\<forall>a\<in>dom (heap st). heap st' a = heap st a))"
  proof
    assume h: "wf_store st \<and> read_config st c = Some (config state)"
    have w: "wf_store st" and r: "read_config st c = Some (config state)"
      using h by simp_all
    show "\<exists>c' st'. header_newconfig key val c st = Some (c', st') \<and>
         read_config st' c' =
           Some ((config state)\<lparr>Config.headers :=
                   Some ((spread (Config.headers (config state)))(key \<mapsto> val))\<rparr>) \<and>
         read_config st' c = Some (config state) \<and>
         c' \<notin> dom (heap st) \<and>
         (\<forall>h. headers_ref st' c' = Some h \<longrightarrow> h \<notin> dom (heap st)) \<and>
         (\<forall>a\<in>dom (heap st). heap st' a = heap st a)"
      using header_newconfig_reads [OF w r, of key val] by (simp only: asg)
  qed
  show ?thesis
    by (intro conjI) (rule a, rule b, rule c, rule d)
qed

theorem header_sets_key_and_keeps_rest_witness:
  "header sample_deps ''X-A'' ''1'' sample_state Map.empty =
     Inr (sample_state\<lparr>config := \<lparr>headers = Some [''X-A'' \<mapsto> ''1'']\<rparr>\<rparr>) \<and>
   header sample_deps ''X-A'' ''2''
     (sample_state\<lparr>config := \<lparr>headers = Some [''X-A'' \<mapsto> ''1'']\<rparr>\<rparr>) Map.empty =
     Inr (sample_state\<lparr>config := \<lparr>headers = Some [''X-A'' \<mapsto> ''2'']\<rparr>\<rparr>) \<and>
   (\<exists>c' st'. header_newconfig ''X-A'' ''1'' 0 \<lparr>heap = [0 \<mapsto> ConfigObj None ()], top = 1\<rparr> =
                Some (c', st') \<and>
      read_config st' c' =
        Some ((config sample_state)\<lparr>headers :=
                Some ((spread (headers (config sample_state)))(''X-A'' \<mapsto> ''1''))\<rparr>) \<and>
      read_config st' 0 = Some (config sample_state) \<and>
      c' \<notin> dom [0 \<mapsto> ConfigObj None ()] \<and>
      (\<forall>h. headers_ref st' c' = Some h \<longrightarrow> h \<notin> dom [0 \<mapsto> ConfigObj None ()]) \<and>
      (\<forall>a\<in>dom [0 \<mapsto> ConfigObj None ()]. heap st' a = [0 \<mapsto> ConfigObj None ()] a))"
proof -
  let ?s1 = "sample_state\<lparr>config := \<lparr>headers = Some [''X-A'' \<mapsto> ''1'']\<rparr>\<rparr>"
  let ?s2 = "sample_state\<lparr>config := \<lparr>headers = Some [''X-A'' \<mapsto> ''2'']\<rparr>\<rparr>"
  let ?st = "\<lparr>heap = [0 \<mapsto> ConfigObj None ()], top = 1\<rparr>"
  have key: "''X-A'' \<noteq> ''__proto__''"
    by simp
  note t = header_sets_key_and_keeps_rest
             [OF key, where D = sample_deps and val = "''1''" and ?v1.0 = "''1''"
                and ?v2.0 = "''2''" and state = sample_state and cache = Map.empty
                and cache' = Map.empty and s' = ?s1 and ?s1.0 = ?s1 and ?s2.0 = ?s2
                and st = ?st and c = 0]
  note t2 = header_sets_key_and_keeps_rest
             [OF key, where D = sample_deps and val = "''2''" and state = ?s1
                and cache = Map.empty]
  have url: "NavState_url sample_deps (cur sample_state) None = Inr (cur sample_state)"
    by (simp add: sample_deps_def sample_state_def)
  have url1: "NavState_url sample_deps (cur ?s1) None = Inr (cur ?s1)"
    by (simp add: sample_deps_def sample_state_def)
  have h1: "header sample_deps ''X-A'' ''1'' sample_state Map.empty = Inr ?s1"
    using t [THEN conjunct2, THEN conjunct1, rule_format, OF url]
    by (simp add: sample_state_def getOr_def spread_def)
  have h2: "header sample_deps ''X-A'' ''2'' ?s1 Map.empty = Inr ?s2"
    using t2 [THEN conjunct2, THEN conjunct1, rule_format, OF url1]
    by (simp add: sample_state_def getOr_def spread_def)
  have twice: "config ?s2 =
     (config sample_state)\<lparr>headers := Some ((spread (headers (config sample_state)))(''X-A'' \<mapsto> ''2''))\<rparr>"
    by (rule t [THEN conjunct2, THEN conjunct2, THEN conjunct1, rule_format])
       (intro conjI h1 h2)
  have wf: "wf_store ?st"
    by (simp add: wf_store_def)
  have rd: "read_config ?st 0 = Some (config sample_state)"
    by (simp add: read_config_def sample_state_def)
  have store: "\<exists>c' st'. header_newconfig ''X-A'' ''1'' 0 ?st = Some (c', st') \<and>
      read_config st' c' =
        Some ((config sample_state)\<lparr>headers :=
                Some ((spread (headers (config sample_state)))(''X-A'' \<mapsto> ''1''))\<rparr>) \<and>
      read_config st' 0 = Some (config sample_state) \<and>
      c' \<notin> dom (heap ?st) \<and>
      (\<forall>h. headers_ref st' c' = Some h \<longrightarrow> h \<notin> dom (heap ?st)) \<and>
      (\<forall>a\<in>dom (heap ?st). heap st' a = heap ?st a)"
    by (rule t [THEN conjunct2, THEN conjunct2, THEN conjunct2, rule_format])
       (intro conjI wf rd)
  show ?thesis
    using h1 h2 twice store by simp
qed

end
